theory Spec2Isabelle
  imports Complex_Main "HOL-Library.Multiset"
begin

section \<open>Python values and errors\<close>

text \<open>
  The program is dynamically typed: \<open>aggregate_oi\<close> receives whatever the adapter
  tasks produced. The values that can reach it are \<open>None\<close>, numbers, lists, dicts
  and exception objects. A dict is an association list in insertion order (keys are
  strings); the only arithmetic \<open>aggregate_oi\<close> performs is \<open>+\<close> and the literal \<open>0\<close>, so
  the number type is left open.
\<close>

type_synonym coin = string

datatype error =
    AttributeError | TypeError | IndexError | KeyError | ZeroDivisionError
  | StatisticsError | FileNotFoundError | SystemExit | ClientError

datatype 'v pyval =
    PyNone
  | PyNum 'v
  | PyList "'v pyval list"
  | PyDict "(string \<times> 'v pyval) list"
  | PyExc error

type_synonym 'v dict = "(string \<times> 'v) list"

text \<open>\<open>d[k] = v\<close>: an existing key keeps its position, a new key goes last.\<close>

fun setitem :: "string \<Rightarrow> 'v \<Rightarrow> 'v dict \<Rightarrow> 'v dict" where
  "setitem k v [] = [(k, v)]"
| "setitem k v ((k', v') # d) = (if k' = k then (k, v) # d else (k', v') # setitem k v d)"

text \<open>\<open>d.get(k, default)\<close>\<close>

definition get_default :: "'v dict \<Rightarrow> string \<Rightarrow> 'v \<Rightarrow> 'v" where
  "get_default d k dflt = (case map_of d k of None \<Rightarrow> dflt | Some v \<Rightarrow> v)"

text \<open>Python truthiness, as \<open>not r\<close> reads it.\<close>

fun falsy :: "('v::zero) pyval \<Rightarrow> bool" where
  "falsy PyNone = True"
| "falsy (PyNum v) = (v = 0)"
| "falsy (PyList xs) = (xs = [])"
| "falsy (PyDict kvs) = (kvs = [])"
| "falsy (PyExc e) = False"

text \<open>\<open>list(x.keys())[0]\<close>: only a dict has \<open>keys\<close>; an empty dict has no first key.\<close>

fun first_key :: "'v pyval \<Rightarrow> error + string" where
  "first_key (PyDict []) = Inl IndexError"
| "first_key (PyDict ((k, v) # kvs)) = Inr k"
| "first_key x = Inl AttributeError"

text \<open>\<open>x[k]\<close> for a dict \<open>x\<close> and a key \<open>k\<close>.\<close>

fun getitem :: "'v pyval \<Rightarrow> string \<Rightarrow> error + 'v pyval" where
  "getitem (PyDict kvs) k = (case map_of kvs k of None \<Rightarrow> Inl KeyError | Some v \<Rightarrow> Inr v)"
| "getitem x k = Inl TypeError"

section \<open>The Aggregator\<close>

text \<open>
  \<open>curr_oi[k] = curr_oi.get(k, 0) + x\<close> (lines 32 and 34). The totals in \<open>curr_oi\<close> are
  numbers, so the addition raises \<open>TypeError\<close> exactly when \<open>x\<close> is not a number.
\<close>

fun accumulate :: "string \<Rightarrow> ('v::{zero,plus}) pyval \<Rightarrow> 'v dict \<Rightarrow> error + 'v dict" where
  "accumulate k (PyNum x) curr_oi = Inr (setitem k (get_default curr_oi k 0 + x) curr_oi)"
| "accumulate k x curr_oi = Inl TypeError"

text \<open>The body of the inner loop (lines 31-32) for one element \<open>sym\<close> (written \<open>sym1\<close>).\<close>

definition add_sym :: "('v::{zero,plus}) pyval \<Rightarrow> 'v dict \<Rightarrow> error + 'v dict" where
  "add_sym sym1 curr_oi =
     (case first_key sym1 of Inl e \<Rightarrow> Inl e
      | Inr key2 \<Rightarrow>
         (case getitem sym1 key2 of Inl e \<Rightarrow> Inl e
          | Inr x \<Rightarrow> accumulate key2 x curr_oi))"

fun add_syms :: "('v::{zero,plus}) pyval list \<Rightarrow> 'v dict \<Rightarrow> error + 'v dict" where
  "add_syms [] curr_oi = Inr curr_oi"
| "add_syms (sym1 # syms) curr_oi =
     (case add_sym sym1 curr_oi of Inl e \<Rightarrow> Inl e | Inr d \<Rightarrow> add_syms syms d)"

text \<open>
  \<open>for sym in r[key1]\<close> (line 30). A list is iterated element by element. Iterating a
  dict yields its keys, which are strings and have no \<open>keys\<close> method, so a non-empty dict
  raises \<open>AttributeError\<close> at line 31 and an empty one does nothing. \<open>None\<close>, a number and
  an exception object are not iterable.
\<close>

fun iterate_syms :: "('v::{zero,plus}) pyval \<Rightarrow> 'v dict \<Rightarrow> error + 'v dict" where
  "iterate_syms (PyList syms) curr_oi = add_syms syms curr_oi"
| "iterate_syms (PyDict []) curr_oi = Inr curr_oi"
| "iterate_syms (PyDict (kv # kvs)) curr_oi = Inl AttributeError"
| "iterate_syms x curr_oi = Inl TypeError"

text \<open>The body of the outer loop (lines 26-34) for one response \<open>r\<close>.\<close>

definition add_response :: "('v::{zero,plus}) pyval \<Rightarrow> 'v dict \<Rightarrow> error + 'v dict" where
  "add_response r curr_oi =
     (if falsy r then Inr curr_oi
      else case first_key r of Inl e \<Rightarrow> Inl e
        | Inr key1 \<Rightarrow>
           if key1 \<in> {''bybit'', ''ftx''}
           then (case getitem r key1 of Inl e \<Rightarrow> Inl e | Inr x \<Rightarrow> iterate_syms x curr_oi)
           else (case getitem r key1 of Inl e \<Rightarrow> Inl e | Inr x \<Rightarrow> accumulate key1 x curr_oi))"

fun aggregate_loop :: "('v::{zero,plus}) pyval list \<Rightarrow> 'v dict \<Rightarrow> error + 'v dict" where
  "aggregate_loop [] curr_oi = Inr curr_oi"
| "aggregate_loop (r # responses) curr_oi =
     (case add_response r curr_oi of Inl e \<Rightarrow> Inl e | Inr d \<Rightarrow> aggregate_loop responses d)"

definition aggregate_oi :: "('v::{zero,plus}) pyval list \<Rightarrow> error + 'v dict" where
  "aggregate_oi responses = aggregate_loop responses []"

section \<open>The Source Adapters' results\<close>

text \<open>
  What the three adapters return (lines 67, 72, 91 and 110): \<open>get_oi_binance\<close> returns
  the one-entry dict \<open>{coin: oi}\<close> or, after a logged status, \<open>None\<close>; \<open>get_oi_bybit\<close> and
  \<open>get_oi_ftx\<close> return \<open>{'bybit': [{coin: oi}, ...]}\<close> and \<open>{'ftx': [{coin: oi}, ...]}\<close>.
\<close>

datatype source = Bybit | Ftx

fun source_key :: "source \<Rightarrow> string" where
  "source_key Bybit = ''bybit''"
| "source_key Ftx = ''ftx''"

datatype 'v source_result =
    Dropped
  | Single coin 'v
  | Listed source "(coin \<times> 'v) list"

fun payload :: "'v source_result \<Rightarrow> 'v pyval" where
  "payload Dropped = PyNone"
| "payload (Single c v) = PyDict [(c, PyNum v)]"
| "payload (Listed src entries) =
     PyDict [(source_key src, PyList (map (\<lambda>(c, v). PyDict [(c, PyNum v)]) entries))]"

text \<open>The (coin, OI) pairs a result reports, in the order it lists them.\<close>

fun contributions :: "'v source_result \<Rightarrow> (coin \<times> 'v) list" where
  "contributions Dropped = []"
| "contributions (Single c v) = [(c, v)]"
| "contributions (Listed src entries) = entries"

definition contributions_of :: "coin \<Rightarrow> 'v source_result list \<Rightarrow> 'v list" where
  "contributions_of c outs = map snd (filter (\<lambda>p. fst p = c) (concat (map contributions outs)))"

text \<open>
  The docstring of \<open>aggregate_oi\<close> reserves the keys \<open>bybit\<close> and \<open>ftx\<close> for the list
  shape: a single-coin dict is told apart from a list-shaped one by its key alone.
\<close>

fun coin_key_free :: "'v source_result \<Rightarrow> bool" where
  "coin_key_free (Single c v) = (c \<noteq> ''bybit'' \<and> c \<noteq> ''ftx'')"
| "coin_key_free out = True"

section \<open>Adapter A and the task barrier\<close>

text \<open>
  A task either returns a value or raises. \<open>get_oi_binance\<close> (lines 63-72) is a function
  of the HTTP status, the parsed JSON body and the coin; it returns the task's outcome
  and the lines it printed. \<open>float(x)\<close> of a value that is not a number raises
  \<open>TypeError\<close>; the exchange's decimal string is taken as already read into a number.
\<close>

datatype 'v outcome = Returned "'v pyval" | Raised error

fun to_float :: "'v pyval \<Rightarrow> error + 'v" where
  "to_float (PyNum v) = Inr v"
| "to_float x = Inl TypeError"

definition get_oi_binance ::
  "nat \<Rightarrow> 'v pyval \<Rightarrow> coin \<Rightarrow> 'v outcome \<times> (nat \<times> 'v pyval) list" where
  "get_oi_binance stat resp coin =
     (if stat = 200 then
        (case getitem resp ''openInterest'' of Inl e \<Rightarrow> (Raised e, [])
         | Inr x \<Rightarrow>
            (case to_float x of Inl e \<Rightarrow> (Raised e, [])
             | Inr v \<Rightarrow> (Returned (PyDict [(coin, PyNum v)]), [])))
      else if stat = 429 then (Raised SystemExit, [(stat, resp)])
      else (Returned PyNone, [(stat, resp)]))"

text \<open>
  \<open>asyncio.gather(*tasks, return_exceptions=True)\<close> (line 131) puts a task's exception
  in the task's slot of the result list. \<open>SystemExit\<close> is not an \<open>Exception\<close>: asyncio
  re-raises it out of the event loop, which ends the run before \<open>gather\<close> delivers
  anything.
\<close>

fun slot :: "'v outcome \<Rightarrow> 'v pyval" where
  "slot (Returned v) = v"
| "slot (Raised e) = PyExc e"

definition gather :: "'v outcome list \<Rightarrow> error + 'v pyval list" where
  "gather tasks = (if Raised SystemExit \<in> set tasks then Inl SystemExit else Inr (map slot tasks))"

definition oi :: "('v::{zero,plus}) outcome list \<Rightarrow> error + 'v dict" where
  "oi tasks = (case gather tasks of Inl e \<Rightarrow> Inl e | Inr responses \<Rightarrow> aggregate_oi responses)"

section \<open>Diff, classification and notification\<close>

text \<open>\<open>d[k]\<close> on a dict of numbers.\<close>

definition lookup :: "'v dict \<Rightarrow> string \<Rightarrow> error + 'v" where
  "lookup d k = (case map_of d k of None \<Rightarrow> Inl KeyError | Some v \<Rightarrow> Inr v)"

text \<open>
  The value lines 152-155 store for one coin, from \<open>c = curr_oi[coin]\<close> and
  \<open>p = prev_oi[coin]\<close>. Python raises \<open>ZeroDivisionError\<close> on a division by zero.
\<close>

definition relative_change :: "real \<Rightarrow> real \<Rightarrow> error + real" where
  "relative_change c p =
     (if c - p = 0 then Inr 0
      else if p = 0 then Inl ZeroDivisionError
      else Inr ((c - p) / p))"

fun diff_loop :: "coin list \<Rightarrow> real dict \<Rightarrow> real dict \<Rightarrow> real dict \<Rightarrow> error + real dict" where
  "diff_loop [] curr_oi prev_oi oi_diff = Inr oi_diff"
| "diff_loop (coin # coins) curr_oi prev_oi oi_diff =
     (case lookup curr_oi coin of Inl e \<Rightarrow> Inl e
      | Inr c \<Rightarrow>
         (case lookup prev_oi coin of Inl e \<Rightarrow> Inl e
          | Inr p \<Rightarrow>
             (case relative_change c p of Inl e \<Rightarrow> Inl e
              | Inr x \<Rightarrow> diff_loop coins curr_oi prev_oi (setitem coin x oi_diff))))"

definition compute_oi_diff :: "real dict \<Rightarrow> real dict \<Rightarrow> error + real dict" where
  "compute_oi_diff curr_oi prev_oi = diff_loop (map fst curr_oi) curr_oi prev_oi []"

text \<open>
  \<open>statistics.mean\<close> and \<open>statistics.stdev\<close> belong to the Python standard library, not
  to the program. The mean of no data and the sample standard deviation (denominator
  \<open>n - 1\<close>) of fewer than two data points raise \<open>StatisticsError\<close>; otherwise the
  library returns a number, which it computes with its own internal arithmetic and
  rounding. These numbers are a parameter of the model: \<open>mean_result lib xs\<close> and
  \<open>stdev_result lib xs\<close> are what the two functions return for the data \<open>xs\<close>.
\<close>

record 'v statistics =
  mean_result :: "'v list \<Rightarrow> 'v"
  stdev_result :: "'v list \<Rightarrow> 'v"

definition mean :: "'v statistics \<Rightarrow> 'v list \<Rightarrow> error + 'v" where
  "mean lib xs = (if xs = [] then Inl StatisticsError else Inr (mean_result lib xs))"

definition stdev :: "'v statistics \<Rightarrow> 'v list \<Rightarrow> error + 'v" where
  "stdev lib xs = (if length xs < 2 then Inl StatisticsError else Inr (stdev_result lib xs))"

text \<open>
  The two results in exact arithmetic: the arithmetic mean, and the square root of the
  sum of squared deviations from it divided by \<open>n - 1\<close>. It stands for the library in
  the concrete runs below that end before a number of the library is used.
\<close>

definition exact_statistics :: "real statistics" where
  "exact_statistics =
     \<lparr>mean_result = (\<lambda>xs. sum_list xs / real (length xs)),
      stdev_result = (\<lambda>xs. sqrt (sum_list (map (\<lambda>x. (x - sum_list xs / real (length xs))\<^sup>2) xs)
                                     / real (length xs - 1)))\<rparr>"

text \<open>
  The three message blocks (lines 160-169). Each line of a block shows a coin and its
  change, so a block is the list of these pairs in the order the lines are appended.
  The loop adds, subtracts and compares numbers and does nothing else with them, so it
  is written for any number type with these operations: the two thresholds are sums
  and differences of that type, rounded as that type rounds.
\<close>

record 'v buckets =
  top_dogs :: "(coin \<times> 'v) list"
  gainers :: "(coin \<times> 'v) list"
  losers :: "(coin \<times> 'v) list"

definition no_buckets :: "'v buckets" where
  "no_buckets = \<lparr>top_dogs = [], gainers = [], losers = []\<rparr>"

fun classify_loop ::
  "coin list \<Rightarrow> ('v::{ord,plus,minus}) dict \<Rightarrow> 'v \<Rightarrow> 'v \<Rightarrow> 'v buckets \<Rightarrow> error + 'v buckets" where
  "classify_loop [] oi_diff oi_change_mean oi_std_dev b = Inr b"
| "classify_loop (coin # coins) oi_diff oi_change_mean oi_std_dev b =
     (case lookup oi_diff coin of Inl e \<Rightarrow> Inl e
      | Inr x \<Rightarrow>
         classify_loop coins oi_diff oi_change_mean oi_std_dev
           (if coin \<in> {''ETH'', ''BTC''} then b\<lparr>top_dogs := top_dogs b @ [(coin, x)]\<rparr>
            else if x \<ge> oi_change_mean + oi_std_dev then b\<lparr>gainers := gainers b @ [(coin, x)]\<rparr>
            else if x \<le> oi_change_mean - oi_std_dev then b\<lparr>losers := losers b @ [(coin, x)]\<rparr>
            else b))"

text \<open>Lines 157-169: the statistics, then the classification.\<close>

definition classification ::
  "'v statistics \<Rightarrow> ('v::{ord,plus,minus}) dict \<Rightarrow> error + 'v buckets" where
  "classification lib oi_diff =
     (case mean lib (map snd oi_diff) of Inl e \<Rightarrow> Inl e
      | Inr oi_change_mean \<Rightarrow>
         (case stdev lib (map snd oi_diff) of Inl e \<Rightarrow> Inl e
          | Inr oi_std_dev \<Rightarrow>
             classify_loop (map fst oi_diff) oi_diff oi_change_mean oi_std_dev no_buckets))"

text \<open>
  The state \<open>send_tg\<close> acts on: the snapshot file \<open>agg_oi.json\<close> (\<open>None\<close> when the file
  does not exist) and the messages delivered to the channel. The two calls to the
  messaging API are outside the program: \<open>get_updates\<close> is what the lookup yields (the
  chat id, or the error it raises), \<open>send_message\<close> the error the send call raises when
  the message is not delivered, if any.
\<close>

record world =
  snapshot :: "real dict option"
  sent :: "(int \<times> real buckets) list"

record telegram =
  get_updates :: "error + int"
  send_message :: "error option"

definition send_tg ::
  "real statistics \<Rightarrow> telegram \<Rightarrow> real dict \<Rightarrow> world \<Rightarrow> (error + unit) \<times> world" where
  "send_tg lib tg curr_oi w =
     (case snapshot w of
        None \<Rightarrow> (Inl FileNotFoundError, w)
      | Some prev_oi \<Rightarrow>
         (let w1 = w\<lparr>snapshot := Some curr_oi\<rparr> in
          case compute_oi_diff curr_oi prev_oi of Inl e \<Rightarrow> (Inl e, w1)
          | Inr oi_diff \<Rightarrow>
             (case classification lib oi_diff of Inl e \<Rightarrow> (Inl e, w1)
              | Inr msg \<Rightarrow>
                 (case get_updates tg of Inl e \<Rightarrow> (Inl e, w1)
                  | Inr chat_id \<Rightarrow>
                     (case send_message tg of Some e \<Rightarrow> (Inl e, w1)
                      | None \<Rightarrow> (Inr (), w1\<lparr>sent := sent w1 @ [(chat_id, msg)]\<rparr>))))))"

text \<open>\<open>main\<close> (lines 182-186), from the outcomes of the adapter tasks on.\<close>

definition main ::
  "real statistics \<Rightarrow> real outcome list \<Rightarrow> telegram \<Rightarrow> world \<Rightarrow> (error + unit) \<times> world" where
  "main lib tasks tg w =
     (case oi tasks of Inl e \<Rightarrow> (Inl e, w) | Inr curr_oi \<Rightarrow> send_tg lib tg curr_oi w)"

section \<open>Auxiliary notions for the statements\<close>

text \<open>
  Adding a list of (coin, OI) pairs to the running totals, one pair after the other,
  each by the assignment of lines 32 and 34.
\<close>

definition add_pairs :: "(coin \<times> ('v::{zero,plus})) list \<Rightarrow> 'v dict \<Rightarrow> 'v dict" where
  "add_pairs ps d = fold (\<lambda>p d. setitem (fst p) (get_default d (fst p) 0 + snd p) d) ps d"

section \<open>Python floats\<close>

text \<open>
  The OI values are Python floats: IEEE 754 binary64 numbers. \<open>Binary64 m e\<close> is the finite
  number \<open>m * 2 ^ e\<close>, kept with an odd \<open>m\<close> (or as \<open>Binary64 0 0\<close>) so that equal numbers
  are equal terms. The sum of two floats is their exact sum rounded to 53 significant
  bits, to nearest and ties to even, as Python's \<open>+\<close> does; the int \<open>0\<close> of
  \<open>curr_oi.get(key, 0)\<close> is converted to the float zero by \<open>+\<close>. The difference is
  rounded in the same way, and two floats compare as the numbers they stand for.
  Overflow to infinity, NaN and signed zeros are left out: the exponent is unbounded
  here.
\<close>

datatype binary64 = Binary64 int int

function bit_length :: "int \<Rightarrow> nat" where
  "bit_length n = (if n \<le> 0 then 0 else Suc (bit_length (n div 2)))"
  by pat_completeness auto
termination
  by (relation "measure nat") auto

function normalize64 :: "int \<Rightarrow> int \<Rightarrow> binary64" where
  "normalize64 m e =
     (if m = 0 then Binary64 0 0
      else if even m then normalize64 (m div 2) (e + 1)
      else Binary64 m e)"
  by pat_completeness auto
termination
  by (relation "measure (\<lambda>(m, e). nat \<bar>m\<bar>)") auto

definition round64 :: "int \<Rightarrow> int \<Rightarrow> binary64" where
  "round64 m e =
     (let a = \<bar>m\<bar>; k = bit_length a - 53 in
      if k = 0 then normalize64 m e
      else
        let q = a div 2 ^ k; r = a mod 2 ^ k; h = 2 ^ (k - 1);
            q' = (if r > h \<or> (r = h \<and> odd q) then q + 1 else q)
        in normalize64 (sgn m * q') (e + int k))"

instantiation binary64 :: "{zero,plus,minus,ord}"
begin

definition zero_binary64 :: binary64 where
  "zero_binary64 = Binary64 0 0"

fun plus_binary64 :: "binary64 \<Rightarrow> binary64 \<Rightarrow> binary64" where
  "plus_binary64 (Binary64 m1 e1) (Binary64 m2 e2) =
     (let e = min e1 e2
      in round64 (m1 * 2 ^ nat (e1 - e) + m2 * 2 ^ nat (e2 - e)) e)"

fun minus_binary64 :: "binary64 \<Rightarrow> binary64 \<Rightarrow> binary64" where
  "minus_binary64 (Binary64 m1 e1) (Binary64 m2 e2) =
     (let e = min e1 e2
      in round64 (m1 * 2 ^ nat (e1 - e) - m2 * 2 ^ nat (e2 - e)) e)"

fun less_eq_binary64 :: "binary64 \<Rightarrow> binary64 \<Rightarrow> bool" where
  "less_eq_binary64 (Binary64 m1 e1) (Binary64 m2 e2) =
     (let e = min e1 e2
      in m1 * 2 ^ nat (e1 - e) \<le> m2 * 2 ^ nat (e2 - e))"

fun less_binary64 :: "binary64 \<Rightarrow> binary64 \<Rightarrow> bool" where
  "less_binary64 (Binary64 m1 e1) (Binary64 m2 e2) =
     (let e = min e1 e2
      in m1 * 2 ^ nat (e1 - e) < m2 * 2 ^ nat (e2 - e))"

instance ..

end

section \<open>Facts about dicts\<close>

lemma setitem_map_of: "map_of (setitem k v d) = (map_of d)(k \<mapsto> v)"
  by (induction d) auto

lemma keys_setitem: "fst ` set (setitem k v d) = insert k (fst ` set d)"
  by (induction d) force+

lemma distinct_setitem: "distinct (map fst d) \<Longrightarrow> distinct (map fst (setitem k v d))"
  by (induction d) (auto simp: keys_setitem)

lemma map_of_keys: "map_of d c = Some v \<Longrightarrow> c \<in> set (map fst d)"
  by (metis map_of_eq_None_iff option.distinct(1) set_map)

section \<open>The aggregation loop on adapter results\<close>

lemma add_pairs_Nil [simp]: "add_pairs [] d = d"
  by (simp add: add_pairs_def)

lemma add_pairs_Cons [simp]:
  "add_pairs ((k, x) # ps) d = add_pairs ps (setitem k (get_default d k 0 + x) d)"
  by (simp add: add_pairs_def)

lemma add_pairs_append: "add_pairs (ps @ qs) d = add_pairs qs (add_pairs ps d)"
  by (simp add: add_pairs_def)

lemma distinct_add_pairs: "distinct (map fst d) \<Longrightarrow> distinct (map fst (add_pairs ps d))"
  by (induction ps arbitrary: d) (auto simp: distinct_setitem)

lemma get_default_setitem:
  "get_default (setitem k v d) c dflt = (if c = k then v else get_default d c dflt)"
  by (simp add: get_default_def setitem_map_of)

lemma map_of_add_pairs:
  "map_of (add_pairs ps d) c =
     (if map snd (filter (\<lambda>p. fst p = c) ps) = [] then map_of d c
      else Some (foldl (+) (get_default d c 0) (map snd (filter (\<lambda>p. fst p = c) ps))))"
proof (induction ps arbitrary: d)
  case Nil
  then show ?case by simp
next
  case (Cons p ps)
  obtain k x where p: "p = (k, x)" by (cases p)
  show ?case
  proof (cases "k = c")
    case True
    then show ?thesis
      using Cons.IH [of "setitem k (get_default d k 0 + x) d"]
      by (simp add: p setitem_map_of get_default_setitem)
  next
    case False
    then show ?thesis
      using Cons.IH [of "setitem k (get_default d k 0 + x) d"]
      by (simp add: p setitem_map_of get_default_setitem)
  qed
qed

lemma add_syms_entries:
  "add_syms (map (\<lambda>(c, v). PyDict [(c, PyNum v)]) es) d = Inr (add_pairs es d)"
  by (induction es arbitrary: d) (auto simp: add_sym_def)

lemma add_response_payload:
  "coin_key_free out \<Longrightarrow> add_response (payload out) d = Inr (add_pairs (contributions out) d)"
proof (cases out)
  case Dropped
  then show ?thesis by (simp add: add_response_def)
next
  case (Single c v)
  assume "coin_key_free out"
  with Single show ?thesis by (simp add: add_response_def)
next
  case (Listed src es)
  then show ?thesis by (cases src) (simp_all add: add_response_def add_syms_entries)
qed

lemma aggregate_loop_payloads:
  "\<forall>out\<in>set outs. coin_key_free out \<Longrightarrow>
   aggregate_loop (map payload outs) d = Inr (add_pairs (concat (map contributions outs)) d)"
  by (induction outs arbitrary: d) (simp_all add: add_response_payload add_pairs_append)

lemma aggregate_oi_payloads_map:
  fixes outs :: "('v::{zero,plus}) source_result list"
  assumes "\<forall>out\<in>set outs. coin_key_free out"
  shows "\<exists>d. aggregate_oi (map payload outs) = Inr d \<and>
           (\<forall>c. map_of d c =
              (if contributions_of c outs = [] then None
               else Some (foldl (+) 0 (contributions_of c outs))))"
  using assms
  by (simp add: aggregate_oi_def aggregate_loop_payloads map_of_add_pairs
      contributions_of_def get_default_def)

lemma foldl_plus_sum_list: "foldl (+) (a::'a::comm_monoid_add) xs = a + sum_list xs"
  by (induction xs arbitrary: a) (simp_all add: add.assoc)

lemma mset_contributions_of:
  "mset outs = mset outs' \<Longrightarrow> mset (contributions_of c outs) = mset (contributions_of c outs')"
proof -
  assume eq: "mset outs = mset outs'"
  have "mset (concat (map contributions outs)) = mset (concat (map contributions outs'))"
    using eq by (metis mset_concat mset_map sum_mset_sum_list)
  then show ?thesis
    by (simp add: contributions_of_def)
qed

section \<open>The relative-change loop\<close>

lemma lookup_Inr_iff: "lookup d k = Inr v \<longleftrightarrow> map_of d k = Some v"
  by (simp add: lookup_def split: option.splits)

lemma lookup_Inl_iff: "lookup d k = Inl e \<longleftrightarrow> map_of d k = None \<and> e = KeyError"
  by (auto simp: lookup_def split: option.splits)

lemma relative_change_Inr_iff:
  "relative_change c p = Inr x \<longleftrightarrow> (p \<noteq> 0 \<or> c = p) \<and> x = (if c = p then 0 else (c - p) / p)"
  by (auto simp: relative_change_def)

lemma relative_change_Inl_iff:
  "relative_change c p = Inl e \<longleftrightarrow> p = 0 \<and> c \<noteq> 0 \<and> e = ZeroDivisionError"
  by (auto simp: relative_change_def)

lemma diff_loop_other:
  "diff_loop coins curr_oi prev_oi acc = Inr d \<Longrightarrow> c \<notin> set coins \<Longrightarrow> map_of d c = map_of acc c"
proof (induction coins arbitrary: acc)
  case Nil
  then show ?case by simp
next
  case (Cons coin coins)
  from Cons.prems obtain x where
    rest: "diff_loop coins curr_oi prev_oi (setitem coin x acc) = Inr d"
    by (auto split: sum.splits)
  from Cons.prems have "c \<noteq> coin" "c \<notin> set coins" by auto
  with Cons.IH [OF rest] show ?case by (simp add: setitem_map_of)
qed

lemma diff_loop_value:
  "diff_loop coins curr_oi prev_oi acc = Inr d \<Longrightarrow> c \<in> set coins \<Longrightarrow>
   map_of curr_oi c = Some v \<Longrightarrow> map_of prev_oi c = Some p \<Longrightarrow>
   map_of d c = Some (if v = p then 0 else (v - p) / p)"
proof (induction coins arbitrary: acc)
  case Nil
  then show ?case by simp
next
  case (Cons coin coins)
  from Cons.prems(1) obtain c0 p0 x where
    step: "lookup curr_oi coin = Inr c0" "lookup prev_oi coin = Inr p0" "relative_change c0 p0 = Inr x"
    and rest: "diff_loop coins curr_oi prev_oi (setitem coin x acc) = Inr d"
    by (auto split: sum.splits)
  show ?case
  proof (cases "c \<in> set coins")
    case True
    then show ?thesis using Cons.IH [OF rest] Cons.prems(3,4) by simp
  next
    case False
    with Cons.prems(2) have "c = coin" by simp
    with step Cons.prems(3,4) have "x = (if v = p then 0 else (v - p) / p)"
      by (simp add: lookup_Inr_iff relative_change_Inr_iff)
    moreover have "map_of d c = map_of (setitem coin x acc) c"
      by (rule diff_loop_other [OF rest False])
    ultimately show ?thesis using \<open>c = coin\<close> by (simp add: setitem_map_of)
  qed
qed

lemma diff_loop_succeeds:
  "\<forall>c\<in>set coins. \<exists>v p. map_of curr_oi c = Some v \<and> map_of prev_oi c = Some p \<and> (p \<noteq> 0 \<or> v = p) \<Longrightarrow>
   \<exists>d. diff_loop coins curr_oi prev_oi acc = Inr d"
proof (induction coins arbitrary: acc)
  case Nil
  then show ?case by simp
next
  case (Cons coin coins)
  from Cons.prems obtain v p where
    "map_of curr_oi coin = Some v" "map_of prev_oi coin = Some p" "p \<noteq> 0 \<or> v = p"
    by auto
  then have "lookup curr_oi coin = Inr v" "lookup prev_oi coin = Inr p"
    "relative_change v p = Inr (if v = p then 0 else (v - p) / p)"
    by (simp_all add: lookup_Inr_iff relative_change_Inr_iff)
  moreover from Cons.prems Cons.IH
  have "\<exists>d. diff_loop coins curr_oi prev_oi (setitem coin (if v = p then 0 else (v - p) / p) acc) = Inr d"
    by simp
  ultimately show ?case by simp
qed

lemma diff_loop_error:
  "diff_loop coins curr_oi prev_oi acc = Inl e \<Longrightarrow>
   (e = KeyError \<and> (\<exists>c\<in>set coins. map_of curr_oi c = None \<or> map_of prev_oi c = None)) \<or>
   (e = ZeroDivisionError \<and> (\<exists>c\<in>set coins. \<exists>v. map_of curr_oi c = Some v \<and> map_of prev_oi c = Some 0 \<and> v \<noteq> 0))"
proof (induction coins arbitrary: acc)
  case Nil
  then show ?case by simp
next
  case (Cons coin coins)
  show ?case
  proof (cases "lookup curr_oi coin")
    case (Inl e1)
    with Cons.prems show ?thesis by (auto simp: lookup_Inl_iff)
  next
    case c0: (Inr c0)
    show ?thesis
    proof (cases "lookup prev_oi coin")
      case (Inl e1)
      with c0 Cons.prems show ?thesis by (auto simp: lookup_Inl_iff)
    next
      case p0: (Inr p0)
      show ?thesis
      proof (cases "relative_change c0 p0")
        case (Inl e1)
        with c0 p0 Cons.prems have "e = ZeroDivisionError" "p0 = 0" "c0 \<noteq> 0"
          by (auto simp: relative_change_Inl_iff)
        with c0 p0 show ?thesis by (auto simp: lookup_Inr_iff)
      next
        case (Inr x)
        with c0 p0 Cons.prems have "diff_loop coins curr_oi prev_oi (setitem coin x acc) = Inl e"
          by simp
        from Cons.IH [OF this] show ?thesis by auto
      qed
    qed
  qed
qed

lemma diff_loop_missing:
  "c \<in> set coins \<Longrightarrow> map_of prev_oi c = None \<Longrightarrow>
   diff_loop coins curr_oi prev_oi acc = Inl KeyError \<or> diff_loop coins curr_oi prev_oi acc = Inl ZeroDivisionError"
proof (cases "diff_loop coins curr_oi prev_oi acc")
  case (Inl e)
  assume "c \<in> set coins" "map_of prev_oi c = None"
  from diff_loop_error [OF Inl] Inl show ?thesis by auto
next
  case (Inr d)
  assume c: "c \<in> set coins" "map_of prev_oi c = None"
  have "\<forall>c\<in>set coins. map_of prev_oi c \<noteq> None" using Inr
  proof (induction coins arbitrary: acc)
    case Nil
    then show ?case by simp
  next
    case (Cons coin coins)
    then show ?case by (auto simp: lookup_Inr_iff split: sum.splits)
  qed
  with c show ?thesis by simp
qed

lemma diff_loop_zero_division:
  "\<forall>c\<in>set coins. map_of curr_oi c \<noteq> None \<and> map_of prev_oi c \<noteq> None \<Longrightarrow>
   \<exists>c\<in>set coins. \<exists>v. map_of curr_oi c = Some v \<and> map_of prev_oi c = Some 0 \<and> v \<noteq> 0 \<Longrightarrow>
   diff_loop coins curr_oi prev_oi acc = Inl ZeroDivisionError"
proof (induction coins arbitrary: acc)
  case Nil
  then show ?case by simp
next
  case (Cons coin coins)
  from Cons.prems(1) obtain v p where vp: "map_of curr_oi coin = Some v" "map_of prev_oi coin = Some p"
    by auto
  then have l: "lookup curr_oi coin = Inr v" "lookup prev_oi coin = Inr p"
    by (simp_all add: lookup_Inr_iff)
  show ?case
  proof (cases "relative_change v p")
    case (Inl e)
    then have "relative_change v p = Inl ZeroDivisionError"
      by (simp add: relative_change_Inl_iff)
    with l show ?thesis by simp
  next
    case (Inr x)
    then have "\<not> (p = 0 \<and> v \<noteq> 0)" by (auto simp: relative_change_Inr_iff)
    with Cons.prems(2) vp
    have "\<exists>c\<in>set coins. \<exists>v. map_of curr_oi c = Some v \<and> map_of prev_oi c = Some 0 \<and> v \<noteq> 0"
      by auto
    with Cons.IH Cons.prems(1) have "diff_loop coins curr_oi prev_oi (setitem coin x acc) = Inl ZeroDivisionError"
      by simp
    with l Inr show ?thesis by simp
  qed
qed

lemma aggregate_loop_append:
  "aggregate_loop (rs @ rs') d =
     (case aggregate_loop rs d of Inl e \<Rightarrow> Inl e | Inr d' \<Rightarrow> aggregate_loop rs' d')"
  by (induction rs arbitrary: d) (auto split: sum.splits)

lemma aggregate_loop_skips_falsy:
  "falsy r \<Longrightarrow> aggregate_loop (rs @ r # rs') d = aggregate_loop (rs @ rs') d"
  by (simp add: aggregate_loop_append add_response_def split: sum.splits)

lemma oi_drops_None: "oi (before @ Returned PyNone # after) = oi (before @ after)"
proof -
  have "aggregate_oi (map slot before @ PyNone # map slot after) =
      aggregate_oi (map slot before @ map slot after)"
    unfolding aggregate_oi_def by (rule aggregate_loop_skips_falsy) simp
  then show ?thesis by (simp add: oi_def gather_def)
qed

section \<open>Classification and the effects of \<open>send_tg\<close>\<close>

lemma map_of_distinct_item: "distinct (map fst d) \<Longrightarrow> (c, x) \<in> set d \<Longrightarrow> map_of d c = Some x"
  by simp

lemma classify_loop_items:
  fixes d :: "('v::{ord,plus,minus}) dict"
  shows "distinct (map fst d) \<Longrightarrow> set ps \<subseteq> set d \<Longrightarrow>
   classify_loop (map fst ps) d m s b = Inr
     \<lparr>top_dogs = top_dogs b @ filter (\<lambda>(c, x). c \<in> {''ETH'', ''BTC''}) ps,
      gainers = gainers b @ filter (\<lambda>(c, x). c \<notin> {''ETH'', ''BTC''} \<and> x \<ge> m + s) ps,
      losers = losers b @ filter (\<lambda>(c, x). c \<notin> {''ETH'', ''BTC''} \<and> \<not> x \<ge> m + s \<and> x \<le> m - s) ps\<rparr>"
proof (induction ps arbitrary: b)
  case Nil
  then show ?case by simp
next
  case (Cons p ps)
  obtain c x where p: "p = (c, x)" by (cases p)
  with Cons.prems have "lookup d c = Inr x"
    by (simp add: lookup_Inr_iff)
  moreover from Cons.prems have "set ps \<subseteq> set d" by simp
  ultimately show ?case
    using Cons.IH [OF Cons.prems(1)] by (simp add: p)
qed

lemma distinct_keys_same_value:
  "distinct (map fst d) \<Longrightarrow> (c, x) \<in> set d \<Longrightarrow> (c, y) \<in> set d \<Longrightarrow> x = y"
  by (metis map_of_distinct_item option.inject)

lemma compute_oi_diff_error:
  "compute_oi_diff curr_oi prev_oi = Inl e \<Longrightarrow> e = KeyError \<or> e = ZeroDivisionError"
  unfolding compute_oi_diff_def by (drule diff_loop_error) auto

lemma classification_degenerate:
  "length oi_diff < 2 \<Longrightarrow> classification lib oi_diff = Inl StatisticsError"
  by (simp add: classification_def mean_def stdev_def)

section \<open>Claims\<close>

text \<open>
  C1. For adapter results whose single-coin payloads are not keyed \<open>bybit\<close> or \<open>ftx\<close>,
  \<open>aggregate_oi\<close> returns a dict with distinct keys in which a coin has an entry if and
  only if some result reports it, and the entry is the sum of the coin's contributions,
  added to 0 in the order they are reported (single-coin and list-shaped results
  alike). A coin no result reports has no entry.
\<close>

theorem aggregate_oi_sums:
  fixes outs :: "('v::{zero,plus}) source_result list"
  assumes "\<forall>out\<in>set outs. coin_key_free out"
  shows "\<exists>curr_oi. aggregate_oi (map payload outs) = Inr curr_oi \<and>
           distinct (map fst curr_oi) \<and>
           (\<forall>c. map_of curr_oi c =
              (if contributions_of c outs = [] then None
               else Some (foldl (+) 0 (contributions_of c outs))))"
  using assms
  by (simp add: aggregate_oi_def aggregate_loop_payloads distinct_add_pairs map_of_add_pairs
      contributions_of_def get_default_def)

theorem aggregate_oi_sums_witness:
  "aggregate_oi (map payload [Single ''BTC'' (100::real), Listed Bybit [(''BTC'', 50)], Dropped]) =
     Inr [(''BTC'', 150)]"
proof -
  obtain d where d: "aggregate_oi (map payload [Single ''BTC'' (100::real), Listed Bybit [(''BTC'', 50)], Dropped]) = Inr d"
    using aggregate_oi_sums [of "[Single ''BTC'' (100::real), Listed Bybit [(''BTC'', 50)], Dropped]"]
    by auto
  then show ?thesis
    by (simp add: aggregate_oi_def add_response_def add_sym_def get_default_def)
qed

text \<open>
  The restriction on the keys is needed: a single-coin payload keyed by one of the two
  reserved source keys is read as a list-shaped one, and iterating its number raises.
\<close>

theorem reserved_key_payload_raises:
  "aggregate_oi (map payload [Single ''BTC'' (100::real), Single ''ftx'' 5]) = Inl TypeError"
  by (simp add: aggregate_oi_def add_response_def get_default_def)

text \<open>
  C2. When the relative changes are computed, a coin present in the current aggregate
  and in the prior snapshot gets the change 0 when both values are equal and
  (current - previous) / previous otherwise. Prior 100 and current 100 give 0, prior 100
  and current 150 give 1/2, prior 100 and current 50 give -1/2.
\<close>

theorem relative_change_values:
  "(compute_oi_diff curr_oi prev_oi = Inr oi_diff \<longrightarrow>
      map_of curr_oi coin = Some c \<longrightarrow> map_of prev_oi coin = Some p \<longrightarrow>
      map_of oi_diff coin = Some (if c = p then 0 else (c - p) / p)) \<and>
   compute_oi_diff [(coin, 100)] [(coin, 100)] = Inr [(coin, 0)] \<and>
   compute_oi_diff [(coin, 150)] [(coin, 100)] = Inr [(coin, 1 / 2)] \<and>
   compute_oi_diff [(coin, 50)] [(coin, 100)] = Inr [(coin, - (1 / 2))]"
proof -
  have "map_of oi_diff coin = Some (if c = p then 0 else (c - p) / p)"
    if "compute_oi_diff curr_oi prev_oi = Inr oi_diff" "map_of curr_oi coin = Some c"
      "map_of prev_oi coin = Some p"
    using that diff_loop_value [of "map fst curr_oi" curr_oi prev_oi "[]" oi_diff coin c p]
      map_of_keys [of curr_oi coin c]
    by (simp add: compute_oi_diff_def)
  moreover have "compute_oi_diff [(coin, 100)] [(coin, 100)] = Inr [(coin, 0)]"
    "compute_oi_diff [(coin, 150)] [(coin, 100)] = Inr [(coin, 1 / 2)]"
    "compute_oi_diff [(coin, 50)] [(coin, 100)] = Inr [(coin, - (1 / 2))]"
    by (simp_all add: compute_oi_diff_def lookup_def relative_change_def)
  ultimately show ?thesis by blast
qed

theorem relative_change_values_witness:
  "\<exists>oi_diff. compute_oi_diff [(''BTC'', 1000), (''ETH'', 500), (''SOL'', 200)]
       [(''BTC'', 900), (''ETH'', 500), (''SOL'', 100)] = Inr oi_diff \<and>
     map_of oi_diff ''BTC'' = Some (1 / 9) \<and> map_of oi_diff ''ETH'' = Some 0 \<and>
     map_of oi_diff ''SOL'' = Some 1"
proof -
  let ?curr = "[(''BTC'', 1000), (''ETH'', 500), (''SOL'', 200::real)]"
  let ?prev = "[(''BTC'', 900), (''ETH'', 500), (''SOL'', 100::real)]"
  let ?d = "[(''BTC'', 1 / 9), (''ETH'', 0), (''SOL'', 1::real)]"
  have d: "compute_oi_diff ?curr ?prev = Inr ?d"
    by (simp add: compute_oi_diff_def lookup_def relative_change_def)
  have "map_of ?d ''BTC'' = Some (1 / 9)"
    using relative_change_values [of ?curr ?prev ?d "''BTC''" 1000 900] d by simp
  moreover have "map_of ?d ''ETH'' = Some 0"
    using relative_change_values [of ?curr ?prev ?d "''ETH''" 500 500] d by simp
  moreover have "map_of ?d ''SOL'' = Some 1"
    using relative_change_values [of ?curr ?prev ?d "''SOL''" 200 100] d by simp
  ultimately show ?thesis using d by blast
qed

text \<open>
  C3. For at least two relative changes (a dict, so with distinct coins), with \<open>m\<close> the
  mean and \<open>s\<close> the sample standard deviation the statistics library returns for them,
  the classification puts the pinned coins (ETH, BTC) in \<open>top_dogs\<close> whatever their
  change, the other coins with a change of at least \<open>m + s\<close> in \<open>gainers\<close>, the remaining
  ones with a change of at most \<open>m - s\<close> in \<open>losers\<close>, and no other coin anywhere; the
  coins of the three buckets are pairwise disjoint. Sums, differences and comparisons
  are those of the number type, so this holds for floats as for exact numbers.
\<close>

theorem classification_buckets:
  fixes oi_diff :: "('v::{ord,plus,minus}) dict"
  assumes "distinct (map fst oi_diff)" and "2 \<le> length oi_diff"
    and "m = mean_result lib (map snd oi_diff)" and "s = stdev_result lib (map snd oi_diff)"
  shows "\<exists>b. classification lib oi_diff = Inr b \<and>
     top_dogs b = filter (\<lambda>(c, x). c \<in> {''ETH'', ''BTC''}) oi_diff \<and>
     gainers b = filter (\<lambda>(c, x). c \<notin> {''ETH'', ''BTC''} \<and> x \<ge> m + s) oi_diff \<and>
     losers b = filter (\<lambda>(c, x). c \<notin> {''ETH'', ''BTC''} \<and> \<not> x \<ge> m + s \<and> x \<le> m - s) oi_diff \<and>
     fst ` set (top_dogs b) \<inter> fst ` set (gainers b) = {} \<and>
     fst ` set (top_dogs b) \<inter> fst ` set (losers b) = {} \<and>
     fst ` set (gainers b) \<inter> fst ` set (losers b) = {}"
proof -
  let ?b = "\<lparr>top_dogs = filter (\<lambda>(c, x). c \<in> {''ETH'', ''BTC''}) oi_diff,
      gainers = filter (\<lambda>(c, x). c \<notin> {''ETH'', ''BTC''} \<and> x \<ge> m + s) oi_diff,
      losers = filter (\<lambda>(c, x). c \<notin> {''ETH'', ''BTC''} \<and> \<not> x \<ge> m + s \<and> x \<le> m - s) oi_diff\<rparr>"
  from assms(2) have "oi_diff \<noteq> []" "\<not> length oi_diff < 2" by auto
  then have "classification lib oi_diff = Inr ?b"
    using classify_loop_items [OF assms(1), of oi_diff m s no_buckets] assms(3,4)
    by (simp add: classification_def mean_def stdev_def no_buckets_def)
  moreover have "fst ` set (top_dogs ?b) \<inter> fst ` set (gainers ?b) = {}"
    by auto
  moreover have "fst ` set (top_dogs ?b) \<inter> fst ` set (losers ?b) = {}"
    by auto
  moreover have "fst ` set (gainers ?b) \<inter> fst ` set (losers ?b) = {}"
    using distinct_keys_same_value [OF assms(1)] by fastforce
  ultimately show ?thesis
    by (intro exI [of _ ?b]) simp
qed

text \<open>
  Three runs on floats, each with the mean and the standard deviation the library
  returns for its data. The first has the changes 1.5 (BTC), 2.0 (SOL), -0.9 (ADA), 0.2
  (XRP) and 0 (ETH), mean 0.56 and deviation 1.176010204037363. The second has -0.9
  (SOL), -0.7 (XRP) and -0.5 (ADA), mean -0.7 and deviation 0.2: the upper threshold
  is the float -0.49999999999999994, so ADA is in no bucket. The third has -0.9 (SOL),
  -0.3 (XRP) and 0.3 (ADA), mean -0.3 and deviation 0.6: the upper threshold is the
  float 0.3, so ADA is a gainer.
\<close>

theorem classification_buckets_witness:
  "classification
      \<lparr>mean_result = (\<lambda>xs. Binary64 1261007895663739 (- 51)), stdev_result = (\<lambda>xs. Binary64 5296279116686569 (- 52))\<rparr>
      [(''BTC'', Binary64 3 (- 1)), (''SOL'', Binary64 1 1), (''ADA'', Binary64 (- 8106479329266893) (- 53)), (''XRP'', Binary64 3602879701896397 (- 54)), (''ETH'', Binary64 0 0)] =
     Inr \<lparr>top_dogs = [(''BTC'', Binary64 3 (- 1)), (''ETH'', Binary64 0 0)], gainers = [(''SOL'', Binary64 1 1)], losers = [(''ADA'', Binary64 (- 8106479329266893) (- 53))]\<rparr> \<and>
   classification
      \<lparr>mean_result = (\<lambda>xs. Binary64 (- 3152519739159347) (- 52)), stdev_result = (\<lambda>xs. Binary64 3602879701896397 (- 54))\<rparr>
      [(''SOL'', Binary64 (- 8106479329266893) (- 53)), (''XRP'', Binary64 (- 3152519739159347) (- 52)), (''ADA'', Binary64 (- 1) (- 1))] =
     Inr \<lparr>top_dogs = [], gainers = [], losers = [(''SOL'', Binary64 (- 8106479329266893) (- 53))]\<rparr> \<and>
   classification
      \<lparr>mean_result = (\<lambda>xs. Binary64 (- 5404319552844595) (- 54)), stdev_result = (\<lambda>xs. Binary64 5404319552844595 (- 53))\<rparr>
      [(''SOL'', Binary64 (- 8106479329266893) (- 53)), (''XRP'', Binary64 (- 5404319552844595) (- 54)), (''ADA'', Binary64 5404319552844595 (- 54))] =
     Inr \<lparr>top_dogs = [], gainers = [(''ADA'', Binary64 5404319552844595 (- 54))], losers = [(''SOL'', Binary64 (- 8106479329266893) (- 53))]\<rparr>"
proof -
  let ?lib1 = "\<lparr>mean_result = (\<lambda>xs. Binary64 1261007895663739 (- 51)), stdev_result = (\<lambda>xs. Binary64 5296279116686569 (- 52))\<rparr>"
  let ?d1 = "[(''BTC'', Binary64 3 (- 1)), (''SOL'', Binary64 1 1), (''ADA'', Binary64 (- 8106479329266893) (- 53)), (''XRP'', Binary64 3602879701896397 (- 54)), (''ETH'', Binary64 0 0)]"
  have k1: "distinct (map fst ?d1)" "2 \<le> length ?d1" by simp_all
  obtain b1 where "classification ?lib1 ?d1 = Inr b1"
    and "top_dogs b1 = filter (\<lambda>(c, x). c \<in> {''ETH'', ''BTC''}) ?d1"
    and "gainers b1 = filter (\<lambda>(c, x). c \<notin> {''ETH'', ''BTC''} \<and> x \<ge> mean_result ?lib1 (map snd ?d1) + stdev_result ?lib1 (map snd ?d1)) ?d1"
    and "losers b1 = filter (\<lambda>(c, x). c \<notin> {''ETH'', ''BTC''} \<and> \<not> x \<ge> mean_result ?lib1 (map snd ?d1) + stdev_result ?lib1 (map snd ?d1) \<and>
          x \<le> mean_result ?lib1 (map snd ?d1) - stdev_result ?lib1 (map snd ?d1)) ?d1"
    using classification_buckets [OF k1 refl refl, of ?lib1] by blast
  moreover have "filter (\<lambda>(c, x). c \<in> {''ETH'', ''BTC''}) ?d1 = [(''BTC'', Binary64 3 (- 1)), (''ETH'', Binary64 0 0)]"
    by code_simp
  moreover have "filter (\<lambda>(c, x). c \<notin> {''ETH'', ''BTC''} \<and> x \<ge> mean_result ?lib1 (map snd ?d1) + stdev_result ?lib1 (map snd ?d1)) ?d1 = [(''SOL'', Binary64 1 1)]"
    by code_simp
  moreover have "filter (\<lambda>(c, x). c \<notin> {''ETH'', ''BTC''} \<and> \<not> x \<ge> mean_result ?lib1 (map snd ?d1) + stdev_result ?lib1 (map snd ?d1) \<and>
          x \<le> mean_result ?lib1 (map snd ?d1) - stdev_result ?lib1 (map snd ?d1)) ?d1 = [(''ADA'', Binary64 (- 8106479329266893) (- 53))]"
    by code_simp
  ultimately have r1: "classification ?lib1 ?d1 = Inr \<lparr>top_dogs = [(''BTC'', Binary64 3 (- 1)), (''ETH'', Binary64 0 0)], gainers = [(''SOL'', Binary64 1 1)], losers = [(''ADA'', Binary64 (- 8106479329266893) (- 53))]\<rparr>"
    by simp
  let ?lib2 = "\<lparr>mean_result = (\<lambda>xs. Binary64 (- 3152519739159347) (- 52)), stdev_result = (\<lambda>xs. Binary64 3602879701896397 (- 54))\<rparr>"
  let ?d2 = "[(''SOL'', Binary64 (- 8106479329266893) (- 53)), (''XRP'', Binary64 (- 3152519739159347) (- 52)), (''ADA'', Binary64 (- 1) (- 1))]"
  have k2: "distinct (map fst ?d2)" "2 \<le> length ?d2" by simp_all
  obtain b2 where "classification ?lib2 ?d2 = Inr b2"
    and "top_dogs b2 = filter (\<lambda>(c, x). c \<in> {''ETH'', ''BTC''}) ?d2"
    and "gainers b2 = filter (\<lambda>(c, x). c \<notin> {''ETH'', ''BTC''} \<and> x \<ge> mean_result ?lib2 (map snd ?d2) + stdev_result ?lib2 (map snd ?d2)) ?d2"
    and "losers b2 = filter (\<lambda>(c, x). c \<notin> {''ETH'', ''BTC''} \<and> \<not> x \<ge> mean_result ?lib2 (map snd ?d2) + stdev_result ?lib2 (map snd ?d2) \<and>
          x \<le> mean_result ?lib2 (map snd ?d2) - stdev_result ?lib2 (map snd ?d2)) ?d2"
    using classification_buckets [OF k2 refl refl, of ?lib2] by blast
  moreover have "filter (\<lambda>(c, x). c \<in> {''ETH'', ''BTC''}) ?d2 = []"
    by code_simp
  moreover have "filter (\<lambda>(c, x). c \<notin> {''ETH'', ''BTC''} \<and> x \<ge> mean_result ?lib2 (map snd ?d2) + stdev_result ?lib2 (map snd ?d2)) ?d2 = []"
    by code_simp
  moreover have "filter (\<lambda>(c, x). c \<notin> {''ETH'', ''BTC''} \<and> \<not> x \<ge> mean_result ?lib2 (map snd ?d2) + stdev_result ?lib2 (map snd ?d2) \<and>
          x \<le> mean_result ?lib2 (map snd ?d2) - stdev_result ?lib2 (map snd ?d2)) ?d2 = [(''SOL'', Binary64 (- 8106479329266893) (- 53))]"
    by code_simp
  ultimately have r2: "classification ?lib2 ?d2 = Inr \<lparr>top_dogs = [], gainers = [], losers = [(''SOL'', Binary64 (- 8106479329266893) (- 53))]\<rparr>"
    by simp
  let ?lib3 = "\<lparr>mean_result = (\<lambda>xs. Binary64 (- 5404319552844595) (- 54)), stdev_result = (\<lambda>xs. Binary64 5404319552844595 (- 53))\<rparr>"
  let ?d3 = "[(''SOL'', Binary64 (- 8106479329266893) (- 53)), (''XRP'', Binary64 (- 5404319552844595) (- 54)), (''ADA'', Binary64 5404319552844595 (- 54))]"
  have k3: "distinct (map fst ?d3)" "2 \<le> length ?d3" by simp_all
  obtain b3 where "classification ?lib3 ?d3 = Inr b3"
    and "top_dogs b3 = filter (\<lambda>(c, x). c \<in> {''ETH'', ''BTC''}) ?d3"
    and "gainers b3 = filter (\<lambda>(c, x). c \<notin> {''ETH'', ''BTC''} \<and> x \<ge> mean_result ?lib3 (map snd ?d3) + stdev_result ?lib3 (map snd ?d3)) ?d3"
    and "losers b3 = filter (\<lambda>(c, x). c \<notin> {''ETH'', ''BTC''} \<and> \<not> x \<ge> mean_result ?lib3 (map snd ?d3) + stdev_result ?lib3 (map snd ?d3) \<and>
          x \<le> mean_result ?lib3 (map snd ?d3) - stdev_result ?lib3 (map snd ?d3)) ?d3"
    using classification_buckets [OF k3 refl refl, of ?lib3] by blast
  moreover have "filter (\<lambda>(c, x). c \<in> {''ETH'', ''BTC''}) ?d3 = []"
    by code_simp
  moreover have "filter (\<lambda>(c, x). c \<notin> {''ETH'', ''BTC''} \<and> x \<ge> mean_result ?lib3 (map snd ?d3) + stdev_result ?lib3 (map snd ?d3)) ?d3 = [(''ADA'', Binary64 5404319552844595 (- 54))]"
    by code_simp
  moreover have "filter (\<lambda>(c, x). c \<notin> {''ETH'', ''BTC''} \<and> \<not> x \<ge> mean_result ?lib3 (map snd ?d3) + stdev_result ?lib3 (map snd ?d3) \<and>
          x \<le> mean_result ?lib3 (map snd ?d3) - stdev_result ?lib3 (map snd ?d3)) ?d3 = [(''SOL'', Binary64 (- 8106479329266893) (- 53))]"
    by code_simp
  ultimately have r3: "classification ?lib3 ?d3 = Inr \<lparr>top_dogs = [], gainers = [(''ADA'', Binary64 5404319552844595 (- 54))], losers = [(''SOL'', Binary64 (- 8106479329266893) (- 53))]\<rparr>"
    by simp
  from r1 r2 r3 show ?thesis by blast
qed

text \<open>
  C4. Whenever \<open>send_tg\<close> fails, no message has been sent. The snapshot is untouched only
  if reading it failed (the file is missing); after every later failure it holds the
  current aggregate, because lines 147-148 overwrite it before anything is computed.
\<close>

theorem send_tg_failure_effects:
  assumes "send_tg lib tg curr_oi w = (Inl e, w')"
  shows "sent w' = sent w \<and>
     snapshot w' = (case snapshot w of None \<Rightarrow> None | Some prev_oi \<Rightarrow> Some curr_oi)"
  using assms
  by (auto simp: send_tg_def Let_def split: option.splits sum.splits)

theorem send_tg_failure_effects_witness:
  "sent (snd (send_tg exact_statistics \<lparr>get_updates = Inr 1, send_message = None\<rparr> [(''SOL'', 2), (''XRP'', 3)]
      \<lparr>snapshot = Some [(''SOL'', 1)], sent = []\<rparr>)) = [] \<and>
   snapshot (snd (send_tg exact_statistics \<lparr>get_updates = Inr 1, send_message = None\<rparr> [(''SOL'', 2), (''XRP'', 3)]
      \<lparr>snapshot = Some [(''SOL'', 1)], sent = []\<rparr>)) = Some [(''SOL'', 2), (''XRP'', 3)]"
proof -
  let ?tg = "\<lparr>get_updates = Inr 1, send_message = None\<rparr>"
  let ?curr = "[(''SOL'', 2), (''XRP'', 3::real)]"
  let ?w = "\<lparr>snapshot = Some [(''SOL'', 1)], sent = []\<rparr>"
  have "fst (send_tg exact_statistics ?tg ?curr ?w) = Inl KeyError"
    by (simp add: send_tg_def compute_oi_diff_def lookup_def relative_change_def)
  then have "send_tg exact_statistics ?tg ?curr ?w = (Inl KeyError, snd (send_tg exact_statistics ?tg ?curr ?w))"
    by (metis prod.collapse)
  from send_tg_failure_effects [OF this] show ?thesis by simp
qed

text \<open>
  A run that fails on the statistics of a single coin: the snapshot no longer holds the
  previous aggregate.
\<close>

theorem snapshot_written_before_failure:
  "send_tg exact_statistics \<lparr>get_updates = Inr 1, send_message = None\<rparr> [(''SOL'', 2)]
      \<lparr>snapshot = Some [(''SOL'', 1)], sent = []\<rparr> =
     (Inl StatisticsError, \<lparr>snapshot = Some [(''SOL'', 2)], sent = []\<rparr>)"
  by (simp add: send_tg_def compute_oi_diff_def lookup_def relative_change_def
      classification_def mean_def stdev_def)

text \<open>
  C5. A slot that holds a raised failure is not skipped: an exception object is truthy
  and has no \<open>keys\<close>, so \<open>aggregate_oi\<close> raises \<open>AttributeError\<close> and the results of the other
  adapters are lost. Slots holding \<open>None\<close> or an empty dict are skipped.
\<close>

theorem raised_failure_slot_not_skipped:
  "aggregate_oi [PyExc ClientError, PyDict [(''BTC'', PyNum (100::real))]] = Inl AttributeError \<and>
   oi [Raised ClientError, Returned (PyDict [(''BTC'', PyNum (100::real))])] = Inl AttributeError \<and>
   aggregate_oi [PyNone, PyDict [], PyDict [(''BTC'', PyNum (100::real))]] = Inr [(''BTC'', 100)]"
  by (simp add: aggregate_oi_def add_response_def oi_def gather_def get_default_def)

text \<open>
  C6. \<open>get_oi_binance\<close>: with status 200 and a body that carries the open interest it
  returns the one-entry dict \<open>{coin: oi}\<close> and prints nothing; with status 429 it prints
  and raises \<open>SystemExit\<close>, and a run one of whose tasks raised \<open>SystemExit\<close> ends with that
  error, the snapshot unwritten and nothing sent; with any other status it prints and
  returns \<open>None\<close>, and a task that returned \<open>None\<close> changes nothing in what \<open>oi\<close> computes
  from the other tasks.
\<close>

theorem get_oi_binance_statuses:
  "(getitem resp ''openInterest'' = Inr (PyNum v) \<longrightarrow>
      get_oi_binance 200 resp coin = (Returned (PyDict [(coin, PyNum v)]), [])) \<and>
   get_oi_binance 429 resp coin = (Raised SystemExit, [(429, resp)]) \<and>
   (Raised SystemExit \<in> set tasks \<longrightarrow> main lib tasks tg w = (Inl SystemExit, w)) \<and>
   (stat \<noteq> 200 \<longrightarrow> stat \<noteq> 429 \<longrightarrow>
      get_oi_binance stat resp coin = (Returned PyNone, [(stat, resp)])) \<and>
   oi (before @ Returned PyNone # after) = oi (before @ after)"
proof (intro conjI impI)
  assume "getitem resp ''openInterest'' = Inr (PyNum v)"
  then show "get_oi_binance 200 resp coin = (Returned (PyDict [(coin, PyNum v)]), [])"
    by (simp add: get_oi_binance_def)
next
  show "get_oi_binance 429 resp coin = (Raised SystemExit, [(429, resp)])"
    by (simp add: get_oi_binance_def)
next
  assume "Raised SystemExit \<in> set tasks"
  then show "main lib tasks tg w = (Inl SystemExit, w)"
    by (simp add: main_def oi_def gather_def)
next
  assume "stat \<noteq> 200" "stat \<noteq> 429"
  then show "get_oi_binance stat resp coin = (Returned PyNone, [(stat, resp)])"
    by (simp add: get_oi_binance_def)
next
  show "oi (before @ Returned PyNone # after) = oi (before @ after)"
    by (rule oi_drops_None)
qed

theorem get_oi_binance_statuses_witness:
  "get_oi_binance 200 (PyDict [(''openInterest'', PyNum (12::real))]) ''BTC'' =
     (Returned (PyDict [(''BTC'', PyNum 12)]), []) \<and>
   main exact_statistics [Returned (PyDict [(''ETH'', PyNum 3)]), Raised SystemExit]
     \<lparr>get_updates = Inr 1, send_message = None\<rparr> \<lparr>snapshot = Some [(''ETH'', 2)], sent = []\<rparr> =
     (Inl SystemExit, \<lparr>snapshot = Some [(''ETH'', 2)], sent = []\<rparr>) \<and>
   get_oi_binance 400 (PyDict [(''code'', PyNum (-1121::real))]) ''BTC'' =
     (Returned PyNone, [(400, PyDict [(''code'', PyNum (-1121))])])"
proof -
  let ?resp = "PyDict [(''openInterest'', PyNum (12::real))]"
  let ?bad = "PyDict [(''code'', PyNum (-1121::real))]"
  let ?tasks = "[Returned (PyDict [(''ETH'', PyNum (3::real))]), Raised SystemExit]"
  have 1: "getitem ?resp ''openInterest'' = Inr (PyNum 12)" by simp
  have 2: "Raised SystemExit \<in> set ?tasks" by simp
  have 3: "(400::nat) \<noteq> 200" "(400::nat) \<noteq> 429" by simp_all
  note t = get_oi_binance_statuses [of ?resp 12 "''BTC''" ?tasks exact_statistics
      "\<lparr>get_updates = Inr 1, send_message = None\<rparr>" "\<lparr>snapshot = Some [(''ETH'', 2)], sent = []\<rparr>"
      400 "[]" "[]"]
  have 4: "get_oi_binance 400 ?bad ''BTC'' = (Returned PyNone, [(400, ?bad)])"
    using get_oi_binance_statuses [of ?bad 0 "''BTC''" ?tasks exact_statistics
      "\<lparr>get_updates = Inr 1, send_message = None\<rparr>" "\<lparr>snapshot = Some [(''ETH'', 2)], sent = []\<rparr>"
      400 "[]" "[]"] 3
    by blast
  from t 1 2 4 show ?thesis by blast
qed

text \<open>
  C7. When the addition of the values is associative and commutative with neutral 0
  (exact arithmetic), two lists of adapter results with the same elements in any order
  aggregate to dicts that are equal as mappings.
\<close>

theorem aggregate_oi_order_independent_exact:
  fixes outs outs' :: "('v::comm_monoid_add) source_result list"
  assumes "\<forall>out\<in>set outs. coin_key_free out" and "mset outs = mset outs'"
  shows "\<exists>d d'. aggregate_oi (map payload outs) = Inr d \<and>
                aggregate_oi (map payload outs') = Inr d' \<and> map_of d = map_of d'"
proof -
  from assms have wf': "\<forall>out\<in>set outs'. coin_key_free out"
    by (metis set_mset_mset)
  obtain d where d: "aggregate_oi (map payload outs) = Inr d"
    and md: "\<forall>c. map_of d c = (if contributions_of c outs = [] then None
               else Some (foldl (+) 0 (contributions_of c outs)))"
    using aggregate_oi_payloads_map [OF assms(1)] by blast
  obtain d' where d': "aggregate_oi (map payload outs') = Inr d'"
    and md': "\<forall>c. map_of d' c = (if contributions_of c outs' = [] then None
               else Some (foldl (+) 0 (contributions_of c outs')))"
    using aggregate_oi_payloads_map [OF wf'] by blast
  have "map_of d c = map_of d' c" for c
  proof -
    have m: "mset (contributions_of c outs) = mset (contributions_of c outs')"
      by (rule mset_contributions_of [OF assms(2)])
    then have e: "contributions_of c outs = [] \<longleftrightarrow> contributions_of c outs' = []"
      by (metis mset_zero_iff)
    have "sum_list (contributions_of c outs) = sum_list (contributions_of c outs')"
      using m by (metis sum_mset_sum_list)
    then show ?thesis
      using e by (simp add: md md' foldl_plus_sum_list)
  qed
  then show ?thesis
    using d d' by auto
qed

theorem aggregate_oi_order_independent_exact_witness:
  "\<exists>d d'. aggregate_oi (map payload [Single ''BTC'' (1::real), Listed Bybit [(''BTC'', 2), (''SOL'', 4)],
               Listed Ftx [(''BTC'', 3)]]) = Inr d \<and>
     aggregate_oi (map payload [Listed Ftx [(''BTC'', 3)], Listed Bybit [(''BTC'', 2), (''SOL'', 4)],
               Single ''BTC'' (1::real)]) = Inr d' \<and>
     map_of d = map_of d'"
proof -
  let ?outs = "[Single ''BTC'' (1::real), Listed Bybit [(''BTC'', 2), (''SOL'', 4)], Listed Ftx [(''BTC'', 3)]]"
  let ?outs' = "[Listed Ftx [(''BTC'', 3)], Listed Bybit [(''BTC'', 2), (''SOL'', 4)], Single ''BTC'' (1::real)]"
  have 1: "\<forall>out\<in>set ?outs. coin_key_free out" by simp
  have 2: "mset ?outs = mset ?outs'" by (simp add: add.commute)
  show ?thesis by (rule aggregate_oi_order_independent_exact [OF 1 2])
qed

text \<open>
  On floats the totals depend on the order: they are added in the order of the list,
  and binary64 addition is not associative. With 0.1 from the single-coin result, 0.2
  from Bybit and 0.3 from FTX the total is 0.6000000000000001, and 0.6 when the list is
  reversed.
\<close>

theorem aggregate_oi_order_dependent_binary64:
  "aggregate_oi (map payload
      [Single ''BTC'' (Binary64 3602879701896397 (- 55)),
       Listed Bybit [(''BTC'', Binary64 3602879701896397 (- 54))],
       Listed Ftx [(''BTC'', Binary64 5404319552844595 (- 54))]]) =
     Inr [(''BTC'', Binary64 1351079888211149 (- 51))] \<and>
   aggregate_oi (map payload
      [Listed Ftx [(''BTC'', Binary64 5404319552844595 (- 54))],
       Listed Bybit [(''BTC'', Binary64 3602879701896397 (- 54))],
       Single ''BTC'' (Binary64 3602879701896397 (- 55))]) =
     Inr [(''BTC'', Binary64 5404319552844595 (- 53))]"
  by code_simp

text \<open>
  C8. When some coin of the current aggregate has no entry in the prior snapshot,
  \<open>send_tg\<close> applies no fallback: it raises (\<open>KeyError\<close> from \<open>prev_oi[coin]\<close>, or
  \<open>ZeroDivisionError\<close> at a coin met before), sends nothing, and leaves the snapshot
  overwritten with the current aggregate.
\<close>

theorem missing_baseline_raises:
  assumes "snapshot w = Some prev_oi" and "coin \<in> set (map fst curr_oi)"
    and "map_of prev_oi coin = None"
  shows "send_tg lib tg curr_oi w = (Inl KeyError, w\<lparr>snapshot := Some curr_oi\<rparr>) \<or>
     send_tg lib tg curr_oi w = (Inl ZeroDivisionError, w\<lparr>snapshot := Some curr_oi\<rparr>)"
  using diff_loop_missing [OF assms(2,3), of curr_oi "[]"] assms(1)
  by (auto simp: send_tg_def compute_oi_diff_def)

theorem missing_baseline_raises_witness:
  "send_tg exact_statistics \<lparr>get_updates = Inr 1, send_message = None\<rparr> [(''BTC'', 5), (''SOL'', 2)]
      \<lparr>snapshot = Some [(''BTC'', 0)], sent = []\<rparr> =
     (Inl ZeroDivisionError, \<lparr>snapshot = Some [(''BTC'', 5), (''SOL'', 2)], sent = []\<rparr>)"
proof -
  let ?tg = "\<lparr>get_updates = Inr 1, send_message = None\<rparr>"
  let ?curr = "[(''BTC'', 5), (''SOL'', 2::real)]"
  let ?w = "\<lparr>snapshot = Some [(''BTC'', 0)], sent = []\<rparr>"
  have 1: "snapshot ?w = Some [(''BTC'', 0)]" by simp
  have 2: "''SOL'' \<in> set (map fst ?curr)" by simp
  have 3: "map_of [(''BTC'', 0::real)] ''SOL'' = None" by simp
  have "fst (send_tg exact_statistics ?tg ?curr ?w) \<noteq> Inl KeyError"
    by (simp add: send_tg_def compute_oi_diff_def lookup_def relative_change_def)
  with missing_baseline_raises [OF 1 2 3, of exact_statistics ?tg] show ?thesis by auto
qed

text \<open>
  A run in which SOL has no prior value ends with \<open>KeyError\<close>.
\<close>

theorem missing_baseline_key_error:
  "send_tg exact_statistics \<lparr>get_updates = Inr 1, send_message = None\<rparr> [(''BTC'', 5), (''ETH'', 3), (''SOL'', 2)]
      \<lparr>snapshot = Some [(''BTC'', 4), (''ETH'', 3)], sent = []\<rparr> =
     (Inl KeyError, \<lparr>snapshot = Some [(''BTC'', 5), (''ETH'', 3), (''SOL'', 2)], sent = []\<rparr>)"
  by (simp add: send_tg_def compute_oi_diff_def lookup_def relative_change_def)

text \<open>
  C9. When the relative changes of fewer than two coins have been computed, the sample
  standard deviation raises \<open>StatisticsError\<close>; no classification is produced and
  \<open>send_tg\<close> ends with that error without sending a message.
\<close>

theorem degenerate_statistics_fail:
  assumes "snapshot w = Some prev_oi" and "compute_oi_diff curr_oi prev_oi = Inr oi_diff"
    and "length oi_diff < 2"
  shows "stdev lib (map snd oi_diff) = Inl StatisticsError \<and>
     classification lib oi_diff = Inl StatisticsError \<and>
     send_tg lib tg curr_oi w = (Inl StatisticsError, w\<lparr>snapshot := Some curr_oi\<rparr>)"
  using assms
  by (simp add: send_tg_def classification_degenerate stdev_def)

theorem degenerate_statistics_fail_witness:
  "stdev exact_statistics [1 / 2] = Inl StatisticsError \<and>
   send_tg exact_statistics \<lparr>get_updates = Inr 1, send_message = None\<rparr> [(''SOL'', 150)]
      \<lparr>snapshot = Some [(''SOL'', 100)], sent = []\<rparr> =
     (Inl StatisticsError, \<lparr>snapshot = Some [(''SOL'', 150)], sent = []\<rparr>)"
proof -
  let ?w = "\<lparr>snapshot = Some [(''SOL'', 100)], sent = []\<rparr>"
  have 1: "snapshot ?w = Some [(''SOL'', 100)]" by simp
  have 2: "compute_oi_diff [(''SOL'', 150)] [(''SOL'', 100)] = Inr [(''SOL'', 1 / 2)]"
    by (simp add: compute_oi_diff_def lookup_def relative_change_def)
  have 3: "length [(''SOL'', 1 / 2 :: real)] < 2" by simp
  from degenerate_statistics_fail [OF 1 2 3, of exact_statistics "\<lparr>get_updates = Inr 1, send_message = None\<rparr>"]
  show ?thesis by simp
qed

text \<open>
  C10. The division of line 155 is not guarded. The relative-change loop raises
  \<open>ZeroDivisionError\<close> only if some coin has the prior value 0 and a current value other
  than 0, so the error cannot occur when every prior value is nonzero or equal to the
  current one; and when every current coin has a prior value, such a coin does make the
  loop raise it. For one coin: a prior value 0 with a different current value raises.
\<close>

theorem division_by_zero_reachability:
  "(compute_oi_diff curr_oi prev_oi = Inl ZeroDivisionError \<longrightarrow>
      (\<exists>coin c. map_of curr_oi coin = Some c \<and> map_of prev_oi coin = Some 0 \<and> c \<noteq> 0)) \<and>
   ((\<forall>coin\<in>set (map fst curr_oi). map_of prev_oi coin \<noteq> None) \<longrightarrow>
      (\<exists>coin c. map_of curr_oi coin = Some c \<and> map_of prev_oi coin = Some 0 \<and> c \<noteq> 0) \<longrightarrow>
      compute_oi_diff curr_oi prev_oi = Inl ZeroDivisionError) \<and>
   (\<forall>c. c \<noteq> 0 \<longrightarrow> relative_change c 0 = Inl ZeroDivisionError)"
proof (intro conjI impI allI)
  assume "compute_oi_diff curr_oi prev_oi = Inl ZeroDivisionError"
  from diff_loop_error [OF this [unfolded compute_oi_diff_def]]
  show "\<exists>coin c. map_of curr_oi coin = Some c \<and> map_of prev_oi coin = Some 0 \<and> c \<noteq> 0"
    by auto
next
  assume present: "\<forall>coin\<in>set (map fst curr_oi). map_of prev_oi coin \<noteq> None"
    and ex: "\<exists>coin c. map_of curr_oi coin = Some c \<and> map_of prev_oi coin = Some 0 \<and> c \<noteq> 0"
  have "\<forall>c\<in>set (map fst curr_oi). map_of curr_oi c \<noteq> None \<and> map_of prev_oi c \<noteq> None"
    using present by (simp add: map_of_eq_None_iff)
  moreover from ex have "\<exists>c\<in>set (map fst curr_oi). \<exists>v.
      map_of curr_oi c = Some v \<and> map_of prev_oi c = Some 0 \<and> v \<noteq> 0"
    using map_of_keys by fastforce
  ultimately show "compute_oi_diff curr_oi prev_oi = Inl ZeroDivisionError"
    unfolding compute_oi_diff_def by (rule diff_loop_zero_division)
next
  fix c :: real
  assume "c \<noteq> 0"
  then show "relative_change c 0 = Inl ZeroDivisionError"
    by (simp add: relative_change_def)
qed

theorem division_by_zero_reachability_witness:
  "compute_oi_diff [(''BTC'', 7), (''SOL'', 5)] [(''BTC'', 7), (''SOL'', 0)] = Inl ZeroDivisionError \<and>
   compute_oi_diff [(''BTC'', 0), (''SOL'', 5)] [(''BTC'', 0), (''SOL'', 4)] \<noteq> Inl ZeroDivisionError"
proof -
  let ?prev = "[(''BTC'', 7), (''SOL'', 0::real)]"
  have "\<exists>coin c. map_of [(''BTC'', 7), (''SOL'', 5::real)] coin = Some c \<and>
      map_of ?prev coin = Some 0 \<and> c \<noteq> 0"
    by (rule exI [of _ "''SOL''"], rule exI [of _ 5]) simp
  then have "compute_oi_diff [(''BTC'', 7), (''SOL'', 5)] ?prev = Inl ZeroDivisionError"
    using division_by_zero_reachability [of "[(''BTC'', 7), (''SOL'', 5)]" ?prev] by simp
  moreover have "compute_oi_diff [(''BTC'', 0), (''SOL'', 5)] [(''BTC'', 0), (''SOL'', 4)] \<noteq> Inl ZeroDivisionError"
    using division_by_zero_reachability [of "[(''BTC'', 0), (''SOL'', 5)]" "[(''BTC'', 0), (''SOL'', 4)]"]
    by (auto split: if_splits)
  ultimately show ?thesis by simp
qed

end
